theory Spec2Isabelle
  imports Complex_Main "HOL-Library.Sublist" "HOL-Library.Multiset"
begin

section \<open>Uploading form events to REDCap: a model of redi/upload.py\<close>

text \<open>
  The module is Python 2. Exceptions are values of the datatype \<open>error\<close>; a function
  that mutates an argument or a collaborator returns the new state next to its outcome, so
  that the state reached when an exception is raised stays visible.
\<close>

subsection \<open>Python values and exceptions\<close>

text \<open>
  The values \<open>ast.literal_eval\<close> can build: \<open>None\<close>, booleans, numbers, strings,
  lists, tuples and dicts. \<open>PDict\<close> carries the items of the dict object, whose keys
  are pairwise different. The strings of a payload are taken to be of one kind, all
  \<open>str\<close> or all \<open>unicode\<close>, and \<open>PStr\<close> does not tell the two apart: a payload
  that mixes \<open>unicode\<close> with non-ASCII \<open>str\<close> is outside the model (there the \<open>+\<close>
  of line 273 can raise a \<open>UnicodeDecodeError\<close>).
\<close>

datatype pyval =
    PNone
  | PBool bool
  | PInt int
  | PFloat real
  | PComplex complex
  | PStr string
  | PList "pyval list"
  | PTuple "pyval list"
  | PDict "(pyval \<times> pyval) list"

text \<open>
  The message of a \<open>RedcapError\<close>, seen through \<open>ast.literal_eval(str(message))\<close>:
  \<open>NotLiteral\<close> when that call raises (the text is not a Python literal), and the value
  it returns otherwise.
\<close>

datatype redcap_message = NotLiteral | Literal pyval

datatype error =
    Exception string
  | AssertionError string
  | IndexError
  | TypeError
  | KeyError string
  | UnboundLocalError
  | LiteralEvalError
  | RedcapError redcap_message
  | OtherError string

datatype level = DEBUG | INFO | ERROR

type_synonym log = "(level \<times> string) list"

text \<open>\<open>v[k]\<close> for a string key \<open>k\<close>: only a dict can be indexed by a string.\<close>

fun subscript :: "pyval \<Rightarrow> string \<Rightarrow> error + pyval" where
  "subscript (PDict d) k =
     (case map_of d (PStr k) of None \<Rightarrow> Inl (KeyError k) | Some v \<Rightarrow> Inr v)"
| "subscript _ k = Inl TypeError"

text \<open>\<open>s + v\<close> for a string \<open>s\<close>: \<open>v\<close> has to be a string.\<close>

fun concat_str :: "string \<Rightarrow> pyval \<Rightarrow> error + string" where
  "concat_str s (PStr t) = Inr (s @ t)"
| "concat_str s _ = Inl TypeError"

text \<open>\<open>sub in s\<close> on strings is the substring test.\<close>

fun contains_str :: "string \<Rightarrow> string \<Rightarrow> bool" where
  "contains_str sub [] = (sub = [])"
| "contains_str sub (c # cs) = (prefix sub (c # cs) \<or> contains_str sub cs)"

text \<open>
  \<open>k in v\<close> for a string \<open>k\<close>: key membership on a dict, the substring test on a
  string, element membership on a list or tuple, and a \<open>TypeError\<close> on anything else.
\<close>

fun py_in :: "string \<Rightarrow> pyval \<Rightarrow> error + bool" where
  "py_in k (PDict d) = Inr (PStr k \<in> set (map fst d))"
| "py_in k (PStr s) = Inr (contains_str k s)"
| "py_in k (PList xs) = Inr (PStr k \<in> set xs)"
| "py_in k (PTuple xs) = Inr (PStr k \<in> set xs)"
| "py_in k _ = Inl TypeError"

text \<open>
  \<open>for x in v\<close>: the elements of a list or tuple, the keys of a dict, the one-character
  strings of a string, and a \<open>TypeError\<close> on anything else.
\<close>

fun py_iter :: "pyval \<Rightarrow> error + pyval list" where
  "py_iter (PList xs) = Inr xs"
| "py_iter (PTuple xs) = Inr xs"
| "py_iter (PDict d) = Inr (map fst d)"
| "py_iter (PStr s) = Inr (map (\<lambda>c. PStr [c]) s)"
| "py_iter _ = Inl TypeError"

subsection \<open>handle_errors_in_redcap_xml_response\<close>

record report_data =
  errors :: "string list"

text \<open>
  Lines 273-274: the error string of one entry. Python evaluates the sum from the left, so
  each subscript is followed by its concatenation before the next key is looked up.
  \<open>then_do\<close> runs the next step unless an exception was raised.
\<close>

definition then_do :: "error + 'a \<Rightarrow> ('a \<Rightarrow> error + 'b) \<Rightarrow> error + 'b" where
  "then_do r f = (case r of Inl e \<Rightarrow> Inl e | Inr v \<Rightarrow> f v)"

definition error_string :: "pyval \<Rightarrow> error + string" where
  "error_string recordData =
     then_do (subscript recordData ''record'') (\<lambda>v1.
     then_do (concat_str ''Error writing to record '' v1) (\<lambda>s1.
     then_do (subscript recordData ''field_name'') (\<lambda>v2.
     then_do (concat_str (s1 @ '' field '') v2) (\<lambda>s2.
     then_do (subscript recordData ''value'') (\<lambda>v3.
     then_do (concat_str (s2 @ '' Value '') v3) (\<lambda>s3.
     then_do (subscript recordData ''message'') (\<lambda>v4.
     concat_str (s3 @ ''.Error Message: '') v4)))))))"

text \<open>
  Lines 272-276: the loop over the entries. It stops at the first exception; what was
  appended before stays in the report.
\<close>

fun records_loop ::
  "pyval list \<Rightarrow> 'a report_data_scheme \<Rightarrow> log \<Rightarrow> error option \<times> 'a report_data_scheme \<times> log"
where
  "records_loop [] rd lg = (None, rd, lg)"
| "records_loop (recordData # rest) rd lg =
     (case error_string recordData of
        Inl e \<Rightarrow> (Some e, rd, lg)
      | Inr es \<Rightarrow> records_loop rest (rd\<lparr>errors := errors rd @ [es]\<rparr>) (lg @ [(INFO, es)]))"

text \<open>Lines 279-280: \<open>except KeyError\<close> logs the key; every other exception goes on.\<close>

fun except_KeyError ::
  "error \<Rightarrow> 'a report_data_scheme \<Rightarrow> log \<Rightarrow> (error + bool) \<times> 'a report_data_scheme \<times> log"
where
  "except_KeyError (KeyError k) rd lg = (Inr True, rd, lg @ [(ERROR, [CHR 0x27] @ k @ [CHR 0x27])])"
| "except_KeyError e rd lg = (Inl e, rd, lg)"

text \<open>
  The outcome is the returned value or the exception raised, with the report as the call
  leaves it and the lines it logged.
\<close>

definition handle_errors_in_redcap_xml_response ::
  "redcap_message \<Rightarrow> 'a report_data_scheme \<Rightarrow> (error + bool) \<times> 'a report_data_scheme \<times> log"
where
  "handle_errors_in_redcap_xml_response redcap_response rd =
     (case redcap_response of
        NotLiteral \<Rightarrow> (Inl LiteralEvalError, rd, [])
      | Literal response \<Rightarrow>
          (let lg = [(DEBUG, ''handling response from the REDCap'')] in
           case py_in ''error'' response of
             Inl e \<Rightarrow> except_KeyError e rd lg
           | Inr False \<Rightarrow> (Inr True, rd, lg @ [(ERROR, ''REDCap response is in unknown format'')])
           | Inr True \<Rightarrow>
               (case subscript response ''records'' of
                  Inl e \<Rightarrow> except_KeyError e rd lg
                | Inr records \<Rightarrow>
                    (case py_iter records of
                       Inl e \<Rightarrow> except_KeyError e rd lg
                     | Inr entries \<Rightarrow>
                         (case records_loop entries rd lg of
                            (None, rd', lg') \<Rightarrow> (Inr True, rd', lg')
                          | (Some e, rd', lg') \<Rightarrow> except_KeyError e rd' lg')))))"

subsection \<open>The XML tree\<close>

text \<open>
  An lxml element: its tag, its attributes, the text before its first child (\<open>None\<close>
  when there is none) and its child elements in document order.
\<close>

datatype xml =
  Element (el_tag: string) (el_attrib: "(string \<times> string) list")
          (el_text: "string option") (el_children: "xml list")

text \<open>\<open>el.xpath('t')\<close>: the children of \<open>el\<close> with tag \<open>t\<close>.\<close>

definition child_elems :: "xml \<Rightarrow> string \<Rightarrow> xml list" where
  "child_elems el t = filter (\<lambda>c. el_tag c = t) (el_children el)"

text \<open>\<open>el.find('t')\<close>: the first such child, or \<open>None\<close>.\<close>

definition find_child :: "xml \<Rightarrow> string \<Rightarrow> xml option" where
  "find_child el t = (case child_elems el t of [] \<Rightarrow> None | c # _ \<Rightarrow> Some c)"

text \<open>
  \<open>el.findtext('t')\<close> is \<open>None\<close> without such a child, and the child's text otherwise,
  with \<open>''\<close> for a child that has no text; \<open>el.findtext('t', d)\<close> is \<open>d\<close> without such
  a child.
\<close>

definition findtext :: "xml \<Rightarrow> string \<Rightarrow> string option" where
  "findtext el t =
     (case find_child el t of
        None \<Rightarrow> None
      | Some c \<Rightarrow> Some (case el_text c of None \<Rightarrow> [] | Some x \<Rightarrow> x))"

definition findtext_or :: "xml \<Rightarrow> string \<Rightarrow> string \<Rightarrow> string" where
  "findtext_or el t d = (case findtext el t of None \<Rightarrow> d | Some x \<Rightarrow> x)"

text \<open>\<open>el.get('a')\<close>: the attribute, or \<open>None\<close>.\<close>

definition get_attrib :: "xml \<Rightarrow> string \<Rightarrow> string option" where
  "get_attrib el a = map_of (el_attrib el) a"

fun descendants_or_self :: "xml \<Rightarrow> xml list" where
  "descendants_or_self (Element t a x cs) =
     Element t a x cs # concat (map descendants_or_self cs)"

text \<open>\<open>root.xpath('//t')\<close>: every element of the document with tag \<open>t\<close>.\<close>

definition xpath_all :: "xml \<Rightarrow> string \<Rightarrow> xml list" where
  "xpath_all doc t = filter (\<lambda>e. el_tag e = t) (descendants_or_self doc)"

text \<open>
  \<open>xpath('//event/field/name')\<close>: the \<open>name\<close> children of the \<open>field\<close> children of
  every \<open>event\<close> element of the document.
\<close>

definition xpath_event_field_name :: "xml \<Rightarrow> xml list" where
  "xpath_event_field_name doc =
     concat (map (\<lambda>ev. concat (map (\<lambda>f. child_elems f ''name'') (child_elems ev ''field'')))
                 (xpath_all doc ''event''))"

text \<open>\<open>person.xpath('./all_form_events/form')\<close>.\<close>

definition xpath_all_form_events_form :: "xml \<Rightarrow> xml list" where
  "xpath_all_form_events_form person =
     concat (map (\<lambda>a. child_elems a ''form'') (child_elems person ''all_form_events''))"

subsection \<open>create_import_data_json\<close>

text \<open>
  The dict sent for one event. A key is a string or Python's \<open>None\<close>, which
  \<open>field.findtext('name')\<close> gives for a field without a \<open>name\<close> element.
\<close>

type_synonym json_data = "string option \<rightharpoonup> string"

text \<open>Lines 56-61.\<close>

fun fields_loop :: "xml list \<Rightarrow> json_data \<Rightarrow> bool \<Rightarrow> json_data \<times> bool" where
  "fields_loop [] import_data_dict contains_data = (import_data_dict, contains_data)"
| "fields_loop (field # rest) import_data_dict contains_data =
     (let val = findtext_or field ''value'' [] in
      fields_loop rest (import_data_dict(findtext field ''name'' \<mapsto> val))
        (if val \<noteq> [] \<and> \<not> contains_data then True else contains_data))"

text \<open>
  \<open>doc\<close> is the root of the document that \<open>event_tree\<close> belongs to: the path of line 45
  starts at the document, not at the event.
\<close>

definition create_import_data_json :: "xml \<Rightarrow> json_data \<Rightarrow> xml \<Rightarrow> error + json_data \<times> bool" where
  "create_import_data_json doc import_data_dict event_tree =
     (case find_child event_tree ''name'' of
        None \<Rightarrow> Inl (Exception ''Expected non-blank element event/name'')
      | Some event_name \<Rightarrow>
          (case el_text event_name of
             None \<Rightarrow> Inl (Exception ''Expected non-blank element event/name'')
           | Some t \<Rightarrow>
               if t = [] then Inl (Exception ''Expected non-blank element event/name'')
               else if list_ex (\<lambda>name. el_text name = None) (xpath_event_field_name doc)
               then Inl (Exception ''Expected non-blank element event/field/name'')
               else Inr (fields_loop (child_elems event_tree ''field'')
                           (import_data_dict(Some ''redcap_event_name'' \<mapsto> t)) False)))"

subsection \<open>create_redcap_records\<close>

text \<open>
  \<open>records_by_subject_and_event\<close> is built as the list of its items in the order in
  which the keys were first used. \<open>update_record\<close> is
  \<open>records_by_subject_and_event[key].update(record)\<close> on a \<open>defaultdict(dict)\<close>.

  Line 87 returns \<open>itervalues()\<close> of a Python 2 dict, which walks the hash table: the
  order depends on the hashes of the keys and is not the order of insertion. The order is
  a parameter of the model: \<open>slot_of\<close> gives each key its rank, and the values come out
  by rank (keys of equal rank in the order of first use). Every order in which the values
  of a dict can come out is the order by rank of some \<open>slot_of\<close>, so what holds for
  every \<open>slot_of\<close> holds for the code.
\<close>

fun update_record ::
  "string \<times> string \<Rightarrow> json_data \<Rightarrow> ((string \<times> string) \<times> json_data) list
     \<Rightarrow> ((string \<times> string) \<times> json_data) list"
where
  "update_record key record [] = [(key, Map.empty ++ record)]"
| "update_record key record ((k, m) # rest) =
     (if k = key then (k, m ++ record) # rest else (k, m) # update_record key record rest)"

type_synonym import_item = "string \<times> string \<times> string \<times> json_data"

fun records_by_subject_and_event ::
  "import_item list \<Rightarrow> ((string \<times> string) \<times> json_data) list \<Rightarrow> ((string \<times> string) \<times> json_data) list"
where
  "records_by_subject_and_event [] d = d"
| "records_by_subject_and_event ((subject_id_key, form_name, event_name, record) # rest) d =
     records_by_subject_and_event rest (update_record (subject_id_key, event_name) record d)"

definition itervalues :: "('k \<Rightarrow> nat) \<Rightarrow> ('k \<times> 'v) list \<Rightarrow> 'v list" where
  "itervalues slot_of d = map snd (sort_key (\<lambda>item. slot_of (fst item)) d)"

definition create_redcap_records ::
  "(string \<times> string \<Rightarrow> nat) \<Rightarrow> import_item list \<Rightarrow> json_data list"
where
  "create_redcap_records slot_of import_data =
     itervalues slot_of (records_by_subject_and_event import_data [])"

subsection \<open>The collaborators of generate_output\<close>

text \<open>
  What \<open>redcap_client.send_data_to_redcap\<close> does with one call: it returns a response
  or raises. \<open>RedcapError\<close> carries the message of the service.
\<close>

datatype send_result = Returns pyval | Raises error

type_synonym request = "json_data list \<times> bool"

text \<open>
  The client is a parameter: its identity field name, and what a call returns given the
  calls made before it, the records and the \<open>overwrite\<close> flag.
\<close>

record redcap_client =
  def_field :: string
  send_data_to_redcap :: "request list \<Rightarrow> json_data list \<Rightarrow> bool \<Rightarrow> send_result"

text \<open>
  What lives outside the run: the triples the tracker holds as sent, and the calls made to
  the client so far, oldest first.
\<close>

record world =
  sent_events :: "(string \<times> string \<times> string) set"
  requests :: "request list"

text \<open>
  Modelled from the spec: \<open>sent_events\<close>, the tracker of utils (not in the sources at
  hand). \<open>was_sent\<close> answers whether the triple was marked, \<open>mark_sent\<close> marks it, and
  a mark is seen by every later \<open>was_sent\<close> of the run.
\<close>

definition was_sent :: "'a world_scheme \<Rightarrow> string \<Rightarrow> string \<Rightarrow> string \<Rightarrow> bool" where
  "was_sent w study_id_key form_name event_name =
     ((study_id_key, form_name, event_name) \<in> sent_events w)"

text \<open>
  Modelled from the spec: \<open>sent_events.mark_sent\<close> of the same tracker records the
  triple and returns nothing.
\<close>

definition mark_sent :: "string \<Rightarrow> string \<Rightarrow> string \<Rightarrow> 'a world_scheme \<Rightarrow> 'a world_scheme" where
  "mark_sent study_id_key form_name event_name w =
     w\<lparr>sent_events := insert (study_id_key, form_name, event_name) (sent_events w)\<rparr>"

text \<open>
  Modelled from the spec: \<open>throttle.Throttle\<close> of utils (not in the sources at hand)
  wraps the send function and behaves as a direct call to it: same arguments, same
  return value, same exceptions; it may only wait before the call. \<open>upload_data\<close> is the
  wrapped sender of lines 127-128.
\<close>

definition upload_data ::
  "redcap_client \<Rightarrow> json_data list \<Rightarrow> bool \<Rightarrow> 'a world_scheme \<Rightarrow> send_result \<times> 'a world_scheme"
where
  "upload_data redcap_client records overwrite w =
     (send_data_to_redcap redcap_client (requests w) records overwrite,
      w\<lparr>requests := requests w @ [(records, overwrite)]\<rparr>)"

subsection \<open>generate_output\<close>

text \<open>
  One entry of \<open>subject_details\<close>: the \<open>lab_id\<close> attribute and the counters. The
  counter keys all start with \<open>Total_\<close>, so they never meet the key \<open>lab_id\<close>.
\<close>

record subject_detail =
  lab_id :: "string option"
  counts :: "string \<rightharpoonup> int"

text \<open>
  The local variables of the run, on top of the world. \<open>study_id_key_var\<close> is the
  variable \<open>study_id_key\<close>, \<open>None\<close> as long as it is unbound. After an exception only the world part matters: the
  locals are gone.
\<close>

record state = world +
  report :: report_data
  subject_details :: "string \<rightharpoonup> subject_detail"
  form_details :: "string \<rightharpoonup> int"
  person_count :: int
  blanks :: "import_item list"
  event_count :: int
  study_id_key_var :: "string option"

datatype control = Continue | Break | Raise error

text \<open>
  Lines 188-189 and 219-220: both counters go up by one. A missing key is a
  \<open>KeyError\<close>.
\<close>

definition update_event_counters :: "string \<Rightarrow> string \<Rightarrow> state \<Rightarrow> error + state" where
  "update_event_counters study_id_key form_key s =
     (case subject_details s study_id_key of
        None \<Rightarrow> Inl (KeyError study_id_key)
      | Some sd \<Rightarrow>
          (case counts sd form_key of
             None \<Rightarrow> Inl (KeyError form_key)
           | Some n \<Rightarrow>
               (case form_details s form_key of
                  None \<Rightarrow> Inl (KeyError form_key)
                | Some m \<Rightarrow>
                    Inr (s\<lparr>subject_details :=
                              (subject_details s)(study_id_key \<mapsto>
                                 sd\<lparr>counts := (counts sd)(form_key \<mapsto> n + 1)\<rparr>),
                            form_details := (form_details s)(form_key \<mapsto> m + 1)\<rparr>))))"

definition count_if_data :: "bool \<Rightarrow> string \<Rightarrow> string \<Rightarrow> state \<Rightarrow> control \<times> state" where
  "count_if_data contains_data study_id_key form_key s =
     (if contains_data
      then (case update_event_counters study_id_key form_key s of
              Inl e \<Rightarrow> (Raise e, s)
            | Inr s' \<Rightarrow> (Continue, s'))
      else (Continue, s))"

text \<open>Lines 205-224: the single send of one event.\<close>

definition send_event ::
  "redcap_client \<Rightarrow> string \<Rightarrow> string \<Rightarrow> string \<Rightarrow> string \<Rightarrow> json_data \<Rightarrow> bool \<Rightarrow> state
     \<Rightarrow> control \<times> state"
where
  "send_event redcap_client study_id_key form_name form_key event_name json_data_dict
       contains_data s =
     (case upload_data redcap_client [json_data_dict] True
             (s\<lparr>event_count := event_count s + 1\<rparr>) of
        (Returns response, s1) \<Rightarrow>
          count_if_data contains_data study_id_key form_key
            (mark_sent study_id_key form_name event_name s1)
      | (Raises (RedcapError message), s1) \<Rightarrow>
          (case handle_errors_in_redcap_xml_response message (report s1) of
             (Inr found_error, rd, lg) \<Rightarrow> (Continue, s1\<lparr>report := rd\<rparr>)
           | (Inl e, rd, lg) \<Rightarrow> (Raise e, s1\<lparr>report := rd\<rparr>))
      | (Raises e, s1) \<Rightarrow> (Raise e, s1))"

text \<open>Lines 172-228: the body of the loop over the events of one form.\<close>

definition event_body ::
  "redcap_client \<Rightarrow> xml \<Rightarrow> bool \<Rightarrow> bool \<Rightarrow> string \<Rightarrow> string \<Rightarrow> string \<Rightarrow> xml \<Rightarrow> state
     \<Rightarrow> control \<times> state"
where
  "event_body redcap_client doc skip_blanks bulk_send_blanks study_id_key form_name form_key
       event s =
     (let event_name = findtext_or event ''name'' [] in
      if event_name = [] then (Raise (AssertionError ''Missing name for form event''), s)
      else
        (case create_import_data_json doc
                [Some (def_field redcap_client) \<mapsto> study_id_key] event of
           Inl e \<Rightarrow> (Raise e, s)
         | Inr (json_data_dict, contains_data) \<Rightarrow>
             if was_sent s study_id_key form_name event_name
             then count_if_data contains_data study_id_key form_key s
             else if \<not> contains_data \<and> skip_blanks then (Break, s)
             else if \<not> contains_data \<and> bulk_send_blanks
             then (Continue,
                   s\<lparr>blanks := blanks s @ [(study_id_key, form_name, event_name, json_data_dict)]\<rparr>)
             else send_event redcap_client study_id_key form_name form_key event_name
                    json_data_dict contains_data s))"

fun events_loop ::
  "redcap_client \<Rightarrow> xml \<Rightarrow> bool \<Rightarrow> bool \<Rightarrow> string \<Rightarrow> string \<Rightarrow> string \<Rightarrow> xml list \<Rightarrow> state
     \<Rightarrow> error option \<times> state"
where
  "events_loop redcap_client doc skip_blanks bulk_send_blanks study_id_key form_name form_key
       [] s = (None, s)"
| "events_loop redcap_client doc skip_blanks bulk_send_blanks study_id_key form_name form_key
       (event # rest) s =
     (case event_body redcap_client doc skip_blanks bulk_send_blanks study_id_key form_name
             form_key event s of
        (Continue, s') \<Rightarrow>
          events_loop redcap_client doc skip_blanks bulk_send_blanks study_id_key form_name
            form_key rest s'
      | (Break, s') \<Rightarrow> (None, s')
      | (Raise e, s') \<Rightarrow> (Some e, s'))"

text \<open>Lines 154-162: the entries of a new subject and of a new form key.\<close>

definition init_counters :: "xml \<Rightarrow> string \<Rightarrow> string \<Rightarrow> state \<Rightarrow> state" where
  "init_counters person study_id_key form_key s =
     (let sd = (case subject_details s study_id_key of
                  None \<Rightarrow> \<lparr>lab_id = get_attrib person ''lab_id'', counts = Map.empty\<rparr>
                | Some sd \<Rightarrow> sd);
          sd' = (case counts sd form_key of
                   None \<Rightarrow> sd\<lparr>counts := (counts sd)(form_key \<mapsto> 0)\<rparr>
                 | Some n \<Rightarrow> sd)
      in s\<lparr>subject_details := (subject_details s)(study_id_key \<mapsto> sd'),
           form_details := (case form_details s form_key of
                              None \<Rightarrow> (form_details s)(form_key \<mapsto> 0)
                            | Some m \<Rightarrow> form_details s)\<rparr>)"

text \<open>
  Lines 149-228: one form of a person. \<open>form.xpath('name')[0]\<close> needs a \<open>name\<close> child,
  and the two concatenations of lines 150 and 164-168 need the form name and the study id
  to be strings. Lines 151-162 run before line 164 raises, on locals that the exception
  discards.
\<close>

definition form_body ::
  "redcap_client \<Rightarrow> xml \<Rightarrow> bool \<Rightarrow> bool \<Rightarrow> xml \<Rightarrow> xml \<Rightarrow> xml \<Rightarrow> state \<Rightarrow> error option \<times> state"
where
  "form_body redcap_client doc skip_blanks bulk_send_blanks person study_id form s =
     (case child_elems form ''name'' of
        [] \<Rightarrow> (Some IndexError, s)
      | name # _ \<Rightarrow>
          (case el_text name of
             None \<Rightarrow> (Some TypeError, s)
           | Some form_name \<Rightarrow>
               (case el_text study_id of
                  None \<Rightarrow> (Some TypeError, s)
                | Some key \<Rightarrow>
                    (let form_key = ''Total_'' @ form_name @ ''_Forms'' in
                     events_loop redcap_client doc skip_blanks bulk_send_blanks key form_name
                       form_key (child_elems form ''event'')
                       (init_counters person key form_key (s\<lparr>study_id_key_var := Some key\<rparr>))))))"

fun forms_loop ::
  "redcap_client \<Rightarrow> xml \<Rightarrow> bool \<Rightarrow> bool \<Rightarrow> xml \<Rightarrow> xml \<Rightarrow> xml list \<Rightarrow> state \<Rightarrow> error option \<times> state"
where
  "forms_loop redcap_client doc skip_blanks bulk_send_blanks person study_id [] s = (None, s)"
| "forms_loop redcap_client doc skip_blanks bulk_send_blanks person study_id (form # rest) s =
     (case form_body redcap_client doc skip_blanks bulk_send_blanks person study_id form s of
        (None, s') \<Rightarrow>
          forms_loop redcap_client doc skip_blanks bulk_send_blanks person study_id rest s'
      | (Some e, s') \<Rightarrow> (Some e, s'))"

text \<open>
  Lines 134-232: one person. Line 231 reads \<open>study_id_key\<close>, which is bound only once a
  form has been visited, by this person or an earlier one.
\<close>

definition person_body ::
  "redcap_client \<Rightarrow> xml \<Rightarrow> bool \<Rightarrow> bool \<Rightarrow> xml \<Rightarrow> state \<Rightarrow> error option \<times> state"
where
  "person_body redcap_client doc skip_blanks bulk_send_blanks person s =
     (let s1 = s\<lparr>person_count := person_count s + 1\<rparr> in
      case child_elems person ''study_id'' of
        [] \<Rightarrow> (Some (Exception ''Expected a valid value for study_id''), s1)
      | study_id # _ \<Rightarrow>
          (case forms_loop redcap_client doc skip_blanks bulk_send_blanks person study_id
                  (xpath_all_form_events_form person) (s1\<lparr>event_count := 0\<rparr>) of
             (Some e, s2) \<Rightarrow> (Some e, s2)
           | (None, s2) \<Rightarrow>
               (case study_id_key_var s2 of
                  None \<Rightarrow> (Some UnboundLocalError, s2)
                | Some key \<Rightarrow> (None, s2))))"

fun persons_loop ::
  "redcap_client \<Rightarrow> xml \<Rightarrow> bool \<Rightarrow> bool \<Rightarrow> xml list \<Rightarrow> state \<Rightarrow> error option \<times> state"
where
  "persons_loop redcap_client doc skip_blanks bulk_send_blanks [] s = (None, s)"
| "persons_loop redcap_client doc skip_blanks bulk_send_blanks (person # rest) s =
     (case person_body redcap_client doc skip_blanks bulk_send_blanks person s of
        (None, s') \<Rightarrow> persons_loop redcap_client doc skip_blanks bulk_send_blanks rest s'
      | (Some e, s') \<Rightarrow> (Some e, s'))"

text \<open>Lines 240-241: every deferred triple is marked.\<close>

fun mark_all_sent :: "import_item list \<Rightarrow> 'a world_scheme \<Rightarrow> 'a world_scheme" where
  "mark_all_sent [] w = w"
| "mark_all_sent ((study_id_key, form_name, event_name, record) # rest) w =
     mark_all_sent rest (mark_sent study_id_key form_name event_name w)"

text \<open>Lines 234-245: the bulk upload of the deferred blank events.\<close>

definition send_blanks ::
  "(string \<times> string \<Rightarrow> nat) \<Rightarrow> redcap_client \<Rightarrow> state \<Rightarrow> error option \<times> state"
where
  "send_blanks slot_of redcap_client s =
     (if blanks s = [] then (None, s)
      else
        (case upload_data redcap_client (create_redcap_records slot_of (blanks s)) True s of
           (Returns response, s1) \<Rightarrow>
             (case subscript response ''count'' of
                Inl e \<Rightarrow> (Some e, mark_all_sent (blanks s) s1)
              | Inr n \<Rightarrow> (None, mark_all_sent (blanks s) s1))
         | (Raises (RedcapError message), s1) \<Rightarrow>
             (case handle_errors_in_redcap_xml_response message (report s1) of
                (Inr handled, rd, lg) \<Rightarrow> (None, s1\<lparr>report := rd\<rparr>)
              | (Inl e, rd, lg) \<Rightarrow> (Some e, s1\<lparr>report := rd\<rparr>))
         | (Raises e, s1) \<Rightarrow> (Some e, s1)))"

text \<open>The dict returned by line 255.\<close>

record final_report = report_data +
  total_subjects :: int
  report_form_details :: "string \<rightharpoonup> int"
  report_subject_details :: "string \<rightharpoonup> subject_detail"

definition initial_state :: "world \<Rightarrow> state" where
  "initial_state w =
     \<lparr>sent_events = sent_events w, requests = requests w,
      report = \<lparr>errors = []\<rparr>, subject_details = Map.empty, form_details = Map.empty,
      person_count = 0, blanks = [], event_count = 0, study_id_key_var = None\<rparr>"

definition world_of :: "state \<Rightarrow> world" where
  "world_of s = \<lparr>sent_events = sent_events s, requests = requests s\<rparr>"

text \<open>
  The whole run on the document with root element \<open>tree_root\<close>, from the world \<open>w\<close>: the report or
  the exception, and the world the run leaves. \<open>slot_of\<close> is the order of the dict
  of \<open>create_redcap_records\<close>. The rate limit only sets the pace of the sender and the
  log lines and clock readings of the run are left out.
\<close>

definition generate_output ::
  "(string \<times> string \<Rightarrow> nat) \<Rightarrow> xml \<Rightarrow> redcap_client \<Rightarrow> bool \<Rightarrow> bool \<Rightarrow> world
     \<Rightarrow> (error + final_report) \<times> world"
where
  "generate_output slot_of tree_root redcap_client skip_blanks bulk_send_blanks w =
     (case persons_loop redcap_client tree_root skip_blanks bulk_send_blanks
             (xpath_all tree_root ''person'') (initial_state w) of
        (Some e, s) \<Rightarrow> (Inl e, world_of s)
      | (None, s) \<Rightarrow>
          (case send_blanks slot_of redcap_client s of
             (Some e, s') \<Rightarrow> (Inl e, world_of s')
           | (None, s') \<Rightarrow>
               (Inr \<lparr>errors = errors (report s'), total_subjects = person_count s',
                     report_form_details = form_details s',
                     report_subject_details = subject_details s'\<rparr>,
                world_of s')))"

section \<open>Notions used in the statements\<close>

text \<open>
  The four keys that line 273-274 read from an entry of \<open>records\<close>, in that order.
\<close>

definition expected_keys :: "string list" where
  "expected_keys = [''record'', ''field_name'', ''value'', ''message'']"

fun is_str :: "pyval option \<Rightarrow> bool" where
  "is_str (Some (PStr x)) = True"
| "is_str v = False"

fun str_or_absent :: "pyval option \<Rightarrow> bool" where
  "str_or_absent None = True"
| "str_or_absent (Some (PStr x)) = True"
| "str_or_absent (Some v) = False"

text \<open>A well-formed entry is a dict that holds a string under each of the four keys.\<close>

fun well_formed_entry :: "pyval \<Rightarrow> bool" where
  "well_formed_entry (PDict e) = list_all (\<lambda>k. is_str (map_of e (PStr k))) expected_keys"
| "well_formed_entry v = False"

text \<open>
  An entry with a missing key is a dict that lacks at least one of the four keys and holds
  strings under those it has.
\<close>

fun entry_missing_key :: "pyval \<Rightarrow> bool" where
  "entry_missing_key (PDict e) =
     (list_all (\<lambda>k. str_or_absent (map_of e (PStr k))) expected_keys \<and>
      list_ex (\<lambda>k. map_of e (PStr k) = None) expected_keys)"
| "entry_missing_key v = False"









text \<open>The error strings of the entries that have one.\<close>

fun error_strings :: "pyval list \<Rightarrow> string list" where
  "error_strings [] = []"
| "error_strings (r # rs) =
     (case error_string r of Inl e \<Rightarrow> error_strings rs | Inr es \<Rightarrow> es # error_strings rs)"

text \<open>Elements without attributes, for the examples.\<close>

abbreviation leaf :: "string \<Rightarrow> string option \<Rightarrow> xml" where
  "leaf t x \<equiv> Element t [] x []"

abbreviation node :: "string \<Rightarrow> xml list \<Rightarrow> xml" where
  "node t cs \<equiv> Element t [] None cs"

definition field_elem :: "string \<Rightarrow> string option \<Rightarrow> xml" where
  "field_elem n v = node ''field'' [leaf ''name'' (Some n), leaf ''value'' v]"

definition event_elem :: "string \<Rightarrow> xml list \<Rightarrow> xml" where
  "event_elem n fs = node ''event'' (leaf ''name'' (Some n) # fs)"

text \<open>An event whose only field has a value and no \<open>name\<close> element.\<close>

definition event_with_unnamed_field :: xml where
  "event_with_unnamed_field =
     node ''event'' [leaf ''name'' (Some ''E1''), node ''field'' [leaf ''value'' (Some ''7'')]]"

text \<open>
  The words of the spec for the aggregator: the identity of an item is its subject and
  event, and the merged mapping of an identity is the update, in the order of the input,
  of the mappings of the items with that identity. \<open>first_seen\<close> lists each element once,
  in the order of first occurrence.
\<close>

definition identity :: "import_item \<Rightarrow> string \<times> string" where
  "identity item = (case item of (subject_id_key, form_name, event_name, record) \<Rightarrow> (subject_id_key, event_name))"

definition record_of :: "import_item \<Rightarrow> json_data" where
  "record_of item = (case item of (subject_id_key, form_name, event_name, record) \<Rightarrow> record)"

definition merged_for :: "string \<times> string \<Rightarrow> import_item list \<Rightarrow> json_data" where
  "merged_for key import_data =
     foldl (++) Map.empty (map record_of (filter (\<lambda>item. identity item = key) import_data))"

definition first_seen :: "'a list \<Rightarrow> 'a list" where
  "first_seen xs = rev (remdups (rev xs))"

text \<open>The counter of a form key in the entry of a subject, when both exist.\<close>

definition subject_count :: "state \<Rightarrow> string \<Rightarrow> string \<Rightarrow> int option" where
  "subject_count s study_id_key form_key =
     (case subject_details s study_id_key of None \<Rightarrow> None | Some sd \<Rightarrow> counts sd form_key)"

text \<open>The triple under which the tracker knows a deferred item.\<close>

definition sent_key :: "import_item \<Rightarrow> string \<times> string \<times> string" where
  "sent_key item =
     (case item of (subject_id_key, form_name, event_name, record) \<Rightarrow>
        (subject_id_key, form_name, event_name))"

text \<open>
  Example collaborators and documents: a client that accepts every call and answers with
  the number of records, a client that rejects every call with a given message, and small
  documents with one person.
\<close>

definition ok_client :: redcap_client where
  "ok_client =
     \<lparr>def_field = ''id'',
      send_data_to_redcap =
        (\<lambda>history records overwrite. Returns (PDict [(PStr ''count'', PInt (int (length records)))]))\<rparr>"

definition failing_client :: "redcap_message \<Rightarrow> redcap_client" where
  "failing_client message =
     \<lparr>def_field = ''id'',
      send_data_to_redcap = (\<lambda>history records overwrite. Raises (RedcapError message))\<rparr>"

definition person_elem :: "string \<Rightarrow> xml list \<Rightarrow> xml" where
  "person_elem study_id forms =
     node ''person'' [leaf ''study_id'' (Some study_id), node ''all_form_events'' forms]"

definition form_elem :: "string \<Rightarrow> xml list \<Rightarrow> xml" where
  "form_elem n events = node ''form'' (leaf ''name'' (Some n) # events)"


definition skip_doc :: xml where
  "skip_doc =
     node ''study''
       [person_elem ''S1''
          [form_elem ''cbc'' [event_elem ''E1'' [field_elem ''hgb'' None],
                              event_elem ''E2'' [field_elem ''hgb'' (Some ''8'')],
                              event_elem ''E3'' [field_elem ''hgb'' None]],
           form_elem ''chem'' [event_elem ''E1'' [field_elem ''na'' (Some ''140'')]]]]"

definition bulk_doc :: xml where
  "bulk_doc =
     node ''study''
       [person_elem ''S1''
          [form_elem ''cbc'' [event_elem ''E1'' [field_elem ''hgb'' None]],
           form_elem ''chem'' [event_elem ''E1'' [field_elem ''na'' None]]]]"

definition empty_world :: world where
  "empty_world = \<lparr>sent_events = {}, requests = []\<rparr>"



definition ready_state :: state where
  "ready_state =
     init_counters (person_elem ''S1'' []) ''S1'' ''Total_cbc_Forms'' (initial_state empty_world)"

section \<open>Properties of handle_errors_in_redcap_xml_response\<close>

lemma is_str_iff: "is_str v = (\<exists>x. v = Some (PStr x))"
  by (cases v rule: is_str.cases) auto

lemma str_or_absent_iff: "str_or_absent v = (v = None \<or> (\<exists>x. v = Some (PStr x)))"
  by (cases v rule: str_or_absent.cases) auto

lemma error_string_dict:
  assumes "map_of e (PStr ''record'') = Some (PStr a)"
    and "map_of e (PStr ''field_name'') = Some (PStr b)"
    and "map_of e (PStr ''value'') = Some (PStr c)"
    and "map_of e (PStr ''message'') = Some (PStr m)"
  shows "error_string (PDict e) =
           Inr (''Error writing to record '' @ a @ '' field '' @ b @ '' Value '' @ c @
                ''.Error Message: '' @ m)"
  using assms by (simp add: error_string_def then_do_def)

lemma well_formed_entry_string:
  assumes "well_formed_entry r"
  shows "\<exists>es. error_string r = Inr es"
proof (cases r)
  case (PDict e)
  with assms obtain a b c m where
    "map_of e (PStr ''record'') = Some (PStr a)" "map_of e (PStr ''field_name'') = Some (PStr b)"
    "map_of e (PStr ''value'') = Some (PStr c)" "map_of e (PStr ''message'') = Some (PStr m)"
    by (auto simp: expected_keys_def is_str_iff)
  then show ?thesis using PDict error_string_dict by blast
qed (use assms in auto)

lemma entry_missing_key_KeyError:
  assumes "entry_missing_key r"
  shows "\<exists>k. error_string r = Inl (KeyError k)"
proof (cases r)
  case (PDict e)
  with assms show ?thesis
    by (auto simp: expected_keys_def str_or_absent_iff error_string_def then_do_def)
qed (use assms in auto)

lemma records_loop_well_formed:
  "list_all well_formed_entry good \<Longrightarrow>
   records_loop (good @ rest) rd lg =
     records_loop rest (rd\<lparr>errors := errors rd @ error_strings good\<rparr>)
       (lg @ map (Pair INFO) (error_strings good))"
proof (induction good arbitrary: rd lg)
  case Nil
  show ?case by simp
next
  case (Cons r good)
  from Cons.prems have "well_formed_entry r" by simp
  from well_formed_entry_string [OF this] obtain es where "error_string r = Inr es" ..
  with Cons show ?case by simp
qed

lemma error_strings_length:
  "list_all well_formed_entry good \<Longrightarrow> length (error_strings good) = length good"
proof (induction good)
  case Nil
  show ?case by simp
next
  case (Cons r good)
  from Cons.prems have "well_formed_entry r" by simp
  from well_formed_entry_string [OF this] obtain es where "error_string r = Inr es" ..
  with Cons show ?case by simp
qed













lemma handle_dict_no_records:
  assumes "PStr ''error'' \<in> set (map fst d)" and "map_of d (PStr ''records'') = None"
  shows "handle_errors_in_redcap_xml_response (Literal (PDict d)) rd =
           (Inr True, rd, [(DEBUG, ''handling response from the REDCap''),
                           (ERROR, [CHR 0x27] @ ''records'' @ [CHR 0x27])])"
  using assms by (simp add: handle_errors_in_redcap_xml_response_def)

lemma handle_dict_records:
  assumes "PStr ''error'' \<in> set (map fst d)"
    and "map_of d (PStr ''records'') = Some recs" and "py_iter recs = Inr entries"
  shows "handle_errors_in_redcap_xml_response (Literal (PDict d)) rd =
           (case records_loop entries rd [(DEBUG, ''handling response from the REDCap'')] of
              (None, rd', lg') \<Rightarrow> (Inr True, rd', lg')
            | (Some e, rd', lg') \<Rightarrow> except_KeyError e rd' lg')"
  using assms by (simp add: handle_errors_in_redcap_xml_response_def)

text \<open>
  Claim C8. On a payload that is a dict with the \<open>error\<close> marker whose \<open>records\<close> list
  holds one entry with the record \<open>rid\<close>, the field name \<open>fld\<close>, the value \<open>val\<close> and
  the message \<open>msg\<close>, the parser returns \<open>True\<close> and appends exactly one string to the
  errors of the report; the string contains \<open>rid\<close>, \<open>fld\<close>, \<open>val\<close> and \<open>msg\<close>. On a
  dict with the \<open>error\<close> marker and no \<open>records\<close> key it returns \<open>True\<close>, logs the
  missing key and leaves the report as it was.
\<close>

theorem parser_one_error_string:
  "(PStr ''error'' \<in> set (map fst d) \<longrightarrow>
    map_of d (PStr ''records'') = Some (PList [PDict r]) \<longrightarrow>
    map_of r (PStr ''record'') = Some (PStr rid) \<longrightarrow>
    map_of r (PStr ''field_name'') = Some (PStr fld) \<longrightarrow>
    map_of r (PStr ''value'') = Some (PStr val) \<longrightarrow>
    map_of r (PStr ''message'') = Some (PStr msg) \<longrightarrow>
      fst (handle_errors_in_redcap_xml_response (Literal (PDict d)) rd) = Inr True \<and>
      fst (snd (handle_errors_in_redcap_xml_response (Literal (PDict d)) rd)) =
        rd\<lparr>errors := errors rd @
              [''Error writing to record '' @ rid @ '' field '' @ fld @ '' Value '' @ val @
               ''.Error Message: '' @ msg]\<rparr> \<and>
      list_all (\<lambda>x. sublist x (''Error writing to record '' @ rid @ '' field '' @ fld @
                               '' Value '' @ val @ ''.Error Message: '' @ msg))
        [rid, fld, val, msg]) \<and>
   (PStr ''error'' \<in> set (map fst d) \<longrightarrow> map_of d (PStr ''records'') = None \<longrightarrow>
      fst (handle_errors_in_redcap_xml_response (Literal (PDict d)) rd) = Inr True \<and>
      fst (snd (handle_errors_in_redcap_xml_response (Literal (PDict d)) rd)) = rd \<and>
      (ERROR, [CHR 0x27] @ ''records'' @ [CHR 0x27]) \<in>
        set (snd (snd (handle_errors_in_redcap_xml_response (Literal (PDict d)) rd))))"
proof (intro conjI impI)
  let ?es = "''Error writing to record '' @ rid @ '' field '' @ fld @ '' Value '' @ val @
             ''.Error Message: '' @ msg"
  assume e: "PStr ''error'' \<in> set (map fst d)"
    and recs: "map_of d (PStr ''records'') = Some (PList [PDict r])"
    and r: "map_of r (PStr ''record'') = Some (PStr rid)"
      "map_of r (PStr ''field_name'') = Some (PStr fld)"
      "map_of r (PStr ''value'') = Some (PStr val)"
      "map_of r (PStr ''message'') = Some (PStr msg)"
  have es: "error_string (PDict r) = Inr ?es"
    using r by (rule error_string_dict)
  have h: "handle_errors_in_redcap_xml_response (Literal (PDict d)) rd =
          (Inr True, rd\<lparr>errors := errors rd @ [?es]\<rparr>,
           [(DEBUG, ''handling response from the REDCap''), (INFO, ?es)])"
    using es by (simp add: handle_dict_records [OF e recs])
  show "fst (handle_errors_in_redcap_xml_response (Literal (PDict d)) rd) = Inr True"
    by (simp only: h fst_conv)
  show "fst (snd (handle_errors_in_redcap_xml_response (Literal (PDict d)) rd)) =
        rd\<lparr>errors := errors rd @ [?es]\<rparr>"
    by (simp only: h fst_conv snd_conv)
  have "sublist rid ?es"
    by (rule sublist_appendI)
  moreover have "sublist fld ?es"
    using sublist_appendI [of fld "''Error writing to record '' @ rid @ '' field ''"]
    by simp
  moreover have "sublist val ?es"
    using sublist_appendI [of val "''Error writing to record '' @ rid @ '' field '' @ fld @ '' Value ''"]
    by simp
  moreover have "sublist msg ?es"
    using sublist_appendI [of msg "''Error writing to record '' @ rid @ '' field '' @ fld @ '' Value '' @ val @ ''.Error Message: ''" "[]"]
    by simp
  ultimately show "list_all (\<lambda>x. sublist x ?es) [rid, fld, val, msg]"
    by simp
next
  assume e: "PStr ''error'' \<in> set (map fst d)" and n: "map_of d (PStr ''records'') = None"
  note h = handle_dict_no_records [OF e n, of rd]
  show "fst (handle_errors_in_redcap_xml_response (Literal (PDict d)) rd) = Inr True"
    by (simp only: h fst_conv)
  show "fst (snd (handle_errors_in_redcap_xml_response (Literal (PDict d)) rd)) = rd"
    by (simp only: h fst_conv snd_conv)
  show "(ERROR, [CHR 0x27] @ ''records'' @ [CHR 0x27]) \<in>
        set (snd (snd (handle_errors_in_redcap_xml_response (Literal (PDict d)) rd)))"
    by (simp add: h)
qed

theorem parser_one_error_string_witness:
  "fst (snd (handle_errors_in_redcap_xml_response
      (Literal (PDict [(PStr ''error'', PStr ''There were data validation errors''),
                       (PStr ''records'',
                        PList [PDict [(PStr ''record'', PStr ''R1''),
                                      (PStr ''field_name'', PStr ''F''),
                                      (PStr ''value'', PStr ''V''),
                                      (PStr ''message'', PStr ''M'')]])]))
      \<lparr>errors = [''earlier'']\<rparr>)) =
     \<lparr>errors = [''earlier'', ''Error writing to record R1 field F Value V.Error Message: M'']\<rparr> \<and>
   list_all (\<lambda>x. sublist x ''Error writing to record R1 field F Value V.Error Message: M'')
     [''R1'', ''F'', ''V'', ''M''] \<and>
   fst (snd (handle_errors_in_redcap_xml_response
      (Literal (PDict [(PStr ''error'', PStr ''There were data validation errors'')]))
      \<lparr>errors = [''earlier'']\<rparr>)) = \<lparr>errors = [''earlier'']\<rparr>"
  using
    parser_one_error_string
      [of "[(PStr ''error'', PStr ''There were data validation errors''),
            (PStr ''records'',
             PList [PDict [(PStr ''record'', PStr ''R1''), (PStr ''field_name'', PStr ''F''),
                           (PStr ''value'', PStr ''V''), (PStr ''message'', PStr ''M'')]])]"
          "[(PStr ''record'', PStr ''R1''), (PStr ''field_name'', PStr ''F''),
            (PStr ''value'', PStr ''V''), (PStr ''message'', PStr ''M'')]"
          "''R1''" "''F''" "''V''" "''M''" "\<lparr>errors = [''earlier'']\<rparr>"]
    parser_one_error_string
      [of "[(PStr ''error'', PStr ''There were data validation errors'')]"
          "[]" "[]" "[]" "[]" "[]" "\<lparr>errors = [''earlier'']\<rparr>"]
  by simp

text \<open>
  Claim C10. When the \<open>records\<close> list of a payload with the \<open>error\<close> marker holds
  well-formed entries followed by an entry with a missing key, the parser returns \<open>True\<close>
  after the key error, and the errors of the report are the earlier ones followed by one
  error string for each of the well-formed entries met before the faulty one.
\<close>

theorem parser_earlier_errors_remain:
  assumes "PStr ''error'' \<in> set (map fst d)"
    and "map_of d (PStr ''records'') = Some (PList (good @ bad # rest))"
    and "list_all well_formed_entry good"
    and "entry_missing_key bad"
  shows "fst (handle_errors_in_redcap_xml_response (Literal (PDict d)) rd) = Inr True \<and>
         errors (fst (snd (handle_errors_in_redcap_xml_response (Literal (PDict d)) rd))) =
           errors rd @ error_strings good \<and>
         length (error_strings good) = length good"
proof -
  let ?lg = "[(DEBUG, ''handling response from the REDCap'')]"
  from entry_missing_key_KeyError [OF assms(4)] obtain k where
    k: "error_string bad = Inl (KeyError k)" ..
  have "records_loop (good @ bad # rest) rd ?lg =
          (Some (KeyError k), rd\<lparr>errors := errors rd @ error_strings good\<rparr>,
           ?lg @ map (Pair INFO) (error_strings good))"
    using k by (simp add: records_loop_well_formed [OF assms(3)])
  then have "handle_errors_in_redcap_xml_response (Literal (PDict d)) rd =
          (Inr True, rd\<lparr>errors := errors rd @ error_strings good\<rparr>,
           ?lg @ map (Pair INFO) (error_strings good) @ [(ERROR, [CHR 0x27] @ k @ [CHR 0x27])])"
    by (simp add: handle_dict_records [OF assms(1,2)])
  then show ?thesis
    using error_strings_length [OF assms(3)] by simp
qed

theorem parser_earlier_errors_remain_witness:
  "errors (fst (snd (handle_errors_in_redcap_xml_response
      (Literal (PDict [(PStr ''error'', PStr ''x''),
                       (PStr ''records'',
                        PList [PDict [(PStr ''record'', PStr ''R1''),
                                      (PStr ''field_name'', PStr ''F''),
                                      (PStr ''value'', PStr ''V''),
                                      (PStr ''message'', PStr ''M'')],
                               PDict [(PStr ''record'', PStr ''R2''),
                                      (PStr ''field_name'', PStr ''G'')],
                               PDict [(PStr ''record'', PStr ''R3''),
                                      (PStr ''field_name'', PStr ''H''),
                                      (PStr ''value'', PStr ''W''),
                                      (PStr ''message'', PStr ''N'')]])]))
      \<lparr>errors = []\<rparr>))) =
     [''Error writing to record R1 field F Value V.Error Message: M'']"
  using
    parser_earlier_errors_remain
      [of "[(PStr ''error'', PStr ''x''),
            (PStr ''records'',
             PList [PDict [(PStr ''record'', PStr ''R1''), (PStr ''field_name'', PStr ''F''),
                           (PStr ''value'', PStr ''V''), (PStr ''message'', PStr ''M'')],
                    PDict [(PStr ''record'', PStr ''R2''), (PStr ''field_name'', PStr ''G'')],
                    PDict [(PStr ''record'', PStr ''R3''), (PStr ''field_name'', PStr ''H''),
                           (PStr ''value'', PStr ''W''), (PStr ''message'', PStr ''N'')]])]"
          "[PDict [(PStr ''record'', PStr ''R1''), (PStr ''field_name'', PStr ''F''),
                   (PStr ''value'', PStr ''V''), (PStr ''message'', PStr ''M'')]]"
          "PDict [(PStr ''record'', PStr ''R2''), (PStr ''field_name'', PStr ''G'')]"
          "[PDict [(PStr ''record'', PStr ''R3''), (PStr ''field_name'', PStr ''H''),
                   (PStr ''value'', PStr ''W''), (PStr ''message'', PStr ''N'')]]"
          "\<lparr>errors = []\<rparr>"]
  by (simp add: expected_keys_def error_string_def then_do_def)



















section \<open>Properties of create_import_data_json\<close>

lemma fields_loop_flag:
  "snd (fields_loop fs d cd) =
     (cd \<or> list_ex (\<lambda>field. findtext_or field ''value'' [] \<noteq> []) fs)"
  by (induction fs arbitrary: d cd) (auto simp: Let_def)

text \<open>
  Claim C2. For every event that \<open>create_import_data_json\<close> accepts, whatever the
  mapping it was given, the flag it returns is true exactly when the value of at least one
  field of the event is a non-empty string.
\<close>

theorem contains_data_iff_some_value:
  assumes "create_import_data_json doc import_data_dict event = Inr (json_data, contains_data)"
  shows "contains_data =
           list_ex (\<lambda>field. findtext_or field ''value'' [] \<noteq> []) (child_elems event ''field'')"
proof -
  from assms obtain d where
    "fields_loop (child_elems event ''field'') d False = (json_data, contains_data)"
    by (auto simp: create_import_data_json_def split: option.splits if_splits)
  then have "contains_data = snd (fields_loop (child_elems event ''field'') d False)"
    by simp
  then show ?thesis by (simp add: fields_loop_flag)
qed

theorem contains_data_iff_some_value_witness:
  "create_import_data_json
     (event_elem ''E1'' [field_elem ''a'' None, field_elem ''b'' (Some ''7'')])
     [Some ''id'' \<mapsto> ''S1'']
     (event_elem ''E1'' [field_elem ''a'' None, field_elem ''b'' (Some ''7'')]) =
     Inr ([Some ''id'' \<mapsto> ''S1'', Some ''redcap_event_name'' \<mapsto> ''E1'',
           Some ''a'' \<mapsto> [], Some ''b'' \<mapsto> ''7''], True) \<and>
   create_import_data_json
     (event_elem ''E1'' [field_elem ''a'' None, field_elem ''b'' None])
     [Some ''id'' \<mapsto> ''S1'']
     (event_elem ''E1'' [field_elem ''a'' None, field_elem ''b'' None]) =
     Inr ([Some ''id'' \<mapsto> ''S1'', Some ''redcap_event_name'' \<mapsto> ''E1'',
           Some ''a'' \<mapsto> [], Some ''b'' \<mapsto> []], False)"
proof -
  let ?e1 = "event_elem ''E1'' [field_elem ''a'' None, field_elem ''b'' (Some ''7'')]"
  let ?e2 = "event_elem ''E1'' [field_elem ''a'' None, field_elem ''b'' None]"
  have 1: "create_import_data_json ?e1 [Some ''id'' \<mapsto> ''S1''] ?e1 =
      Inr ([Some ''id'' \<mapsto> ''S1'', Some ''redcap_event_name'' \<mapsto> ''E1'',
            Some ''a'' \<mapsto> [], Some ''b'' \<mapsto> ''7''], True)"
    by (simp add: create_import_data_json_def event_elem_def field_elem_def find_child_def
        child_elems_def xpath_event_field_name_def xpath_all_def findtext_def findtext_or_def)
  have 2: "create_import_data_json ?e2 [Some ''id'' \<mapsto> ''S1''] ?e2 =
      Inr ([Some ''id'' \<mapsto> ''S1'', Some ''redcap_event_name'' \<mapsto> ''E1'',
            Some ''a'' \<mapsto> [], Some ''b'' \<mapsto> []], False)"
    by (simp add: create_import_data_json_def event_elem_def field_elem_def find_child_def
        child_elems_def xpath_event_field_name_def xpath_all_def findtext_def findtext_or_def)
  show ?thesis
    using contains_data_iff_some_value [OF 1] contains_data_iff_some_value [OF 2] 1 2
    by simp
qed

text \<open>
  The checks of lines 39-50: an event without a \<open>name\<close> element, or with one that has
  no text or an empty text, is refused; so is every event as soon as some
  \<open>event/field/name\<close> element of the document has no text; every other event is
  accepted.
\<close>

lemma event_name_checked:
  assumes "find_child event ''name'' = None \<or>
           (\<exists>n. find_child event ''name'' = Some n \<and> (el_text n = None \<or> el_text n = Some []))"
  shows "create_import_data_json doc d event =
           Inl (Exception ''Expected non-blank element event/name'')"
  using assms by (auto simp: create_import_data_json_def)

lemma field_name_without_text_checked:
  assumes "find_child event ''name'' = Some n" and "el_text n = Some t" and "t \<noteq> []"
    and "list_ex (\<lambda>name. el_text name = None) (xpath_event_field_name doc)"
  shows "create_import_data_json doc d event =
           Inl (Exception ''Expected non-blank element event/field/name'')"
  using assms by (simp add: create_import_data_json_def)

lemma create_import_data_json_returns:
  assumes "find_child event ''name'' = Some n" and "el_text n = Some t" and "t \<noteq> []"
    and "\<not> list_ex (\<lambda>name. el_text name = None) (xpath_event_field_name doc)"
  shows "create_import_data_json doc d event =
           Inr (fields_loop (child_elems event ''field'') (d(Some ''redcap_event_name'' \<mapsto> t)) False)"
  using assms by (simp add: create_import_data_json_def)

text \<open>
  Claim C9 at an event whose field has no \<open>name\<close> element at all: the path of line 45
  selects \<open>name\<close> elements, so the field is not seen by the check, the event is
  accepted, and the value is stored under the key \<open>None\<close>.
\<close>

theorem unnamed_field_accepted:
  "create_import_data_json event_with_unnamed_field [Some ''id'' \<mapsto> ''S1'']
     event_with_unnamed_field =
     Inr ([Some ''id'' \<mapsto> ''S1'', Some ''redcap_event_name'' \<mapsto> ''E1'', None \<mapsto> ''7''], True)"
  by (simp add: create_import_data_json_def event_with_unnamed_field_def find_child_def
      child_elems_def xpath_event_field_name_def xpath_all_def findtext_def findtext_or_def)

section \<open>Properties of create_redcap_records\<close>

lemma records_by_subject_and_event_snoc:
  "records_by_subject_and_event (xs @ [item]) d =
     update_record (identity item) (record_of item) (records_by_subject_and_event xs d)"
  by (induction xs d rule: records_by_subject_and_event.induct)
     (auto simp: identity_def record_of_def split: prod.splits)

lemma first_seen_snoc:
  "first_seen (ys @ [k]) = (if k \<in> set ys then first_seen ys else first_seen ys @ [k])"
  by (simp add: first_seen_def)

lemma distinct_first_seen: "distinct (first_seen xs)"
  by (simp add: first_seen_def)

lemma set_first_seen: "set (first_seen xs) = set xs"
  by (simp add: first_seen_def)

lemma merged_for_snoc:
  "merged_for key (xs @ [item]) =
     (if identity item = key then merged_for key xs ++ record_of item else merged_for key xs)"
  by (simp add: merged_for_def)

lemma update_record_present:
  "distinct ks \<Longrightarrow> key \<in> set ks \<Longrightarrow>
   update_record key r (map (\<lambda>k. (k, F k)) ks) =
     map (\<lambda>k. (k, if k = key then F k ++ r else F k)) ks"
  by (induction ks) auto

lemma update_record_absent:
  "key \<notin> set ks \<Longrightarrow>
   update_record key r (map (\<lambda>k. (k, F k)) ks) = map (\<lambda>k. (k, F k)) ks @ [(key, Map.empty ++ r)]"
  by (induction ks) auto

lemma merged_for_absent:
  "key \<notin> set (map identity xs) \<Longrightarrow> merged_for key xs = Map.empty"
proof -
  assume "key \<notin> set (map identity xs)"
  then have "filter (\<lambda>item. identity item = key) xs = []"
    by (auto simp: filter_empty_conv)
  then show ?thesis by (simp add: merged_for_def)
qed

lemma records_by_subject_and_event_merged:
  "records_by_subject_and_event xs [] =
     map (\<lambda>key. (key, merged_for key xs)) (first_seen (map identity xs))"
proof (induction xs rule: rev_induct)
  case Nil
  show ?case by (simp add: first_seen_def)
next
  case (snoc item xs)
  let ?ks = "first_seen (map identity xs)"
  show ?case
  proof (cases "identity item \<in> set (map identity xs)")
    case True
    then have "identity item \<in> set ?ks" by (simp add: set_first_seen)
    from update_record_present [OF distinct_first_seen this]
    show ?thesis
      using True by (simp add: records_by_subject_and_event_snoc snoc first_seen_snoc merged_for_snoc)
  next
    case False
    then have n: "identity item \<notin> set ?ks" by (simp add: set_first_seen)
    have "\<And>k. k \<in> set ?ks \<Longrightarrow> identity item \<noteq> k" using n by auto
    then show ?thesis
      using False update_record_absent [OF n] merged_for_absent [OF False]
      by (simp add: records_by_subject_and_event_snoc snoc first_seen_snoc merged_for_snoc)
  qed
qed

lemma mset_itervalues: "mset (itervalues slot_of d) = image_mset snd (mset d)"
  unfolding itervalues_def by (simp only: mset_map mset_sort)

lemma length_itervalues: "length (itervalues slot_of d) = length d"
  by (simp add: itervalues_def)

lemma itervalues_single: "itervalues slot_of [item] = [snd item]"
  by (simp add: itervalues_def)

lemma mset_create_redcap_records:
  "mset (create_redcap_records slot_of import_data) =
     image_mset (\<lambda>key. merged_for key import_data) (mset_set (identity ` set import_data))"
proof -
  let ?ks = "first_seen (map identity import_data)"
  have "mset (create_redcap_records slot_of import_data) =
          image_mset snd (mset (map (\<lambda>key. (key, merged_for key import_data)) ?ks))"
    by (simp only: create_redcap_records_def mset_itervalues
        records_by_subject_and_event_merged)
  also have "\<dots> = image_mset (\<lambda>key. merged_for key import_data) (mset ?ks)"
    by (simp add: image_mset.compositionality comp_def)
  also have "mset ?ks = mset_set (set ?ks)"
    using distinct_first_seen [of "map identity import_data"] by (simp add: mset_set_set)
  also have "set ?ks = identity ` set import_data"
    by (simp add: set_first_seen)
  finally show ?thesis .
qed

lemma length_create_redcap_records:
  "length (create_redcap_records slot_of import_data) = card (identity ` set import_data)"
proof -
  have "length (create_redcap_records slot_of import_data) =
          length (first_seen (map identity import_data))"
    by (simp add: create_redcap_records_def length_itervalues
        records_by_subject_and_event_merged)
  also have "\<dots> = card (set (first_seen (map identity import_data)))"
    using distinct_first_seen [of "map identity import_data"] by (simp add: distinct_card)
  finally show ?thesis by (simp add: set_first_seen)
qed

text \<open>
  Claim C6. Whatever the order of the dict, \<open>create_redcap_records\<close> yields one mapping
  for each identity (subject, event) of its input and no other: as a multiset, its output
  is the merged mapping of every identity of the input, where the merged mapping of an
  identity is the update, in the order of the input, of the mappings of the items with
  that identity, later items overwriting earlier ones. Two items of one identity give the
  one mapping \<open>A ++ B\<close>; merging \<open>{x: 1}\<close> then \<open>{x: 2}\<close> gives \<open>{x: 2}\<close>, and the
  other order gives \<open>{x: 1}\<close>; two items of different identities stay two mappings,
  each as it was.
\<close>

theorem one_record_per_identity:
  "mset (create_redcap_records slot_of import_data) =
     image_mset (\<lambda>key. merged_for key import_data) (mset_set (identity ` set import_data)) \<and>
   length (create_redcap_records slot_of import_data) = card (identity ` set import_data) \<and>
   create_redcap_records slot_of [(s, f, e, A), (s, g, e, B)] = [A ++ B] \<and>
   create_redcap_records slot_of [(''1'', ''f'', ''E'', [Some ''x'' \<mapsto> ''1'']),
                          (''1'', ''g'', ''E'', [Some ''x'' \<mapsto> ''2''])] = [[Some ''x'' \<mapsto> ''2'']] \<and>
   create_redcap_records slot_of [(''1'', ''g'', ''E'', [Some ''x'' \<mapsto> ''2'']),
                          (''1'', ''f'', ''E'', [Some ''x'' \<mapsto> ''1''])] = [[Some ''x'' \<mapsto> ''1'']] \<and>
   ((sa, ea) \<noteq> (sb, eb) \<longrightarrow>
      mset (create_redcap_records slot_of [(sa, fa, ea, A), (sb, fb, eb, B)]) = {#A, B#})"
proof (intro conjI impI)
  show "mset (create_redcap_records slot_of import_data) =
     image_mset (\<lambda>key. merged_for key import_data) (mset_set (identity ` set import_data))"
    by (rule mset_create_redcap_records)
  show "length (create_redcap_records slot_of import_data) = card (identity ` set import_data)"
    by (rule length_create_redcap_records)
  show "create_redcap_records slot_of [(s, f, e, A), (s, g, e, B)] = [A ++ B]"
    by (simp add: create_redcap_records_def itervalues_single)
  show "create_redcap_records slot_of [(''1'', ''f'', ''E'', [Some ''x'' \<mapsto> ''1'']),
                          (''1'', ''g'', ''E'', [Some ''x'' \<mapsto> ''2''])] = [[Some ''x'' \<mapsto> ''2'']]"
    by (simp add: create_redcap_records_def itervalues_single)
  show "create_redcap_records slot_of [(''1'', ''g'', ''E'', [Some ''x'' \<mapsto> ''2'']),
                          (''1'', ''f'', ''E'', [Some ''x'' \<mapsto> ''1''])] = [[Some ''x'' \<mapsto> ''1'']]"
    by (simp add: create_redcap_records_def itervalues_single)
next
  assume "(sa, ea) \<noteq> (sb, eb)"
  then have "records_by_subject_and_event [(sa, fa, ea, A), (sb, fb, eb, B)] [] =
               [((sa, ea), A), ((sb, eb), B)]"
    by auto
  then show "mset (create_redcap_records slot_of [(sa, fa, ea, A), (sb, fb, eb, B)]) = {#A, B#}"
    by (simp add: create_redcap_records_def mset_itervalues)
qed

text \<open>
  The witness takes an order of the dict in which the key used second comes out first.
\<close>

theorem one_record_per_identity_witness:
  "(''S1'', ''E1'') \<noteq> (''S1'', ''E2'') \<and>
   mset (create_redcap_records (\<lambda>key. if key = (''S1'', ''E2'') then 0 else 1)
           [(''S1'', ''f'', ''E1'', [Some ''x'' \<mapsto> ''1'']),
            (''S1'', ''f'', ''E2'', [Some ''x'' \<mapsto> ''2''])]) =
     {#[Some ''x'' \<mapsto> ''1''], [Some ''x'' \<mapsto> ''2'']#} \<and>
   create_redcap_records (\<lambda>key. if key = (''S1'', ''E2'') then 0 else 1)
     [(''S1'', ''f'', ''E1'', [Some ''x'' \<mapsto> ''1'']),
      (''S1'', ''f'', ''E2'', [Some ''x'' \<mapsto> ''2''])] =
     [[Some ''x'' \<mapsto> ''2''], [Some ''x'' \<mapsto> ''1'']]"
proof -
  have "create_redcap_records (\<lambda>key. if key = (''S1'', ''E2'') then 0 else 1)
     [(''S1'', ''f'', ''E1'', [Some ''x'' \<mapsto> ''1'']),
      (''S1'', ''f'', ''E2'', [Some ''x'' \<mapsto> ''2''])] =
     [[Some ''x'' \<mapsto> ''2''], [Some ''x'' \<mapsto> ''1'']]"
    by (simp add: create_redcap_records_def itervalues_def)
  then show ?thesis
    using one_record_per_identity
      [where slot_of = "\<lambda>key. if key = (''S1'', ''E2'') then 0 else 1"
         and import_data = "[]" and s = "[]" and f = "[]" and g = "[]" and e = "[]"
         and sa = "''S1''" and ea = "''E1''" and sb = "''S1''" and eb = "''E2''" and fa = "''f''"
         and fb = "''f''" and A = "[Some ''x'' \<mapsto> ''1'']" and B = "[Some ''x'' \<mapsto> ''2'']"]
    by simp
qed

section \<open>Properties of generate_output\<close>

subsection \<open>The counters are there whenever an event is processed\<close>

lemma update_event_counters_ready:
  assumes "subject_count s key fk = Some n" and "form_details s fk = Some m"
  shows "\<exists>s'. update_event_counters key fk s = Inr s' \<and>
           subject_count s' key fk = Some (n + 1) \<and> form_details s' fk = Some (m + 1) \<and>
           sent_events s' = sent_events s \<and> requests s' = requests s \<and>
           blanks s' = blanks s \<and> report s' = report s"
  using assms
  by (auto simp: update_event_counters_def subject_count_def split: option.splits)

lemma count_if_data_ready:
  assumes "subject_count s key fk = Some n" and "form_details s fk = Some m"
  shows "\<exists>s'. count_if_data cd key fk s = (Continue, s') \<and>
           subject_count s' key fk = Some (if cd then n + 1 else n) \<and>
           form_details s' fk = Some (if cd then m + 1 else m) \<and>
           sent_events s' = sent_events s \<and> requests s' = requests s \<and>
           blanks s' = blanks s \<and> report s' = report s"
proof (cases cd)
  case True
  from update_event_counters_ready [OF assms] obtain s' where
    "update_event_counters key fk s = Inr s'" "subject_count s' key fk = Some (n + 1)"
    "form_details s' fk = Some (m + 1)" "sent_events s' = sent_events s"
    "requests s' = requests s" "blanks s' = blanks s" "report s' = report s"
    by blast
  with True show ?thesis by (simp add: count_if_data_def)
next
  case False
  with assms show ?thesis by (simp add: count_if_data_def)
qed

lemma init_counters_ready:
  "\<exists>n m. subject_count (init_counters person key fk s) key fk = Some n \<and>
         form_details (init_counters person key fk s) fk = Some m"
  by (auto simp: init_counters_def subject_count_def Let_def split: option.splits)

lemma count_if_data_keeps_ready:
  assumes "subject_count s key fk = Some n" and "form_details s fk = Some m"
    and "count_if_data cd key fk s = (c, s')"
  shows "\<exists>n' m'. subject_count s' key fk = Some n' \<and> form_details s' fk = Some m'"
  using count_if_data_ready [OF assms(1,2), of cd] assms(3) by auto

lemma send_event_keeps_ready:
  assumes "subject_count s key fk = Some n" and "form_details s fk = Some m"
    and "send_event redcap_client key form_name fk event_name json_data_dict cd s = (c, s')"
  shows "\<exists>n' m'. subject_count s' key fk = Some n' \<and> form_details s' fk = Some m'"
proof (cases "send_data_to_redcap redcap_client (requests s) [json_data_dict] True")
  case (Returns response)
  let ?s2 = "mark_sent key form_name event_name
               (s\<lparr>event_count := event_count s + 1,
                  requests := requests s @ [([json_data_dict], True)]\<rparr>)"
  have "subject_count ?s2 key fk = Some n" "form_details ?s2 fk = Some m"
    using assms(1,2) by (simp_all add: subject_count_def mark_sent_def)
  moreover have "count_if_data cd key fk ?s2 = (c, s')"
    using assms(3) Returns by (simp add: send_event_def upload_data_def)
  ultimately show ?thesis by (rule count_if_data_keeps_ready)
next
  case (Raises e)
  then show ?thesis
    using assms
    by (auto simp: send_event_def upload_data_def subject_count_def
        split: error.splits prod.splits sum.splits)
qed

lemma event_body_keeps_ready:
  assumes "subject_count s key fk = Some n" and "form_details s fk = Some m"
    and "event_body redcap_client doc skip_blanks bulk_send_blanks key form_name fk event s =
           (c, s')"
  shows "\<exists>n' m'. subject_count s' key fk = Some n' \<and> form_details s' fk = Some m'"
  using assms
  by (auto simp: event_body_def Let_def subject_count_def
      split: if_splits sum.splits prod.splits
      dest: count_if_data_keeps_ready [unfolded subject_count_def, rotated 2]
            send_event_keeps_ready [unfolded subject_count_def, rotated 2])

lemma events_loop_keeps_ready:
  assumes "subject_count s key fk = Some n" and "form_details s fk = Some m"
    and "events_loop redcap_client doc skip_blanks bulk_send_blanks key form_name fk es s =
           (r, s')"
  shows "\<exists>n' m'. subject_count s' key fk = Some n' \<and> form_details s' fk = Some m'"
  using assms
proof (induction es arbitrary: s n m)
  case Nil
  then show ?case by simp
next
  case (Cons event es)
  obtain c s1 where b: "event_body redcap_client doc skip_blanks bulk_send_blanks key form_name
      fk event s = (c, s1)"
    by (cases "event_body redcap_client doc skip_blanks bulk_send_blanks key form_name
      fk event s") auto
  from event_body_keeps_ready [OF Cons.prems(1,2) b] obtain n1 m1 where
    r1: "subject_count s1 key fk = Some n1" "form_details s1 fk = Some m1" by blast
  show ?case
  proof (cases c)
    case Continue
    with b Cons.prems(3) have "events_loop redcap_client doc skip_blanks bulk_send_blanks key
        form_name fk es s1 = (r, s')" by simp
    from Cons.IH [OF r1 this] show ?thesis .
  next
    case Break
    with b Cons.prems(3) r1 show ?thesis by auto
  next
    case (Raise e)
    with b Cons.prems(3) r1 show ?thesis by auto
  qed
qed

lemma form_body_events:
  assumes "child_elems form ''name'' = name # names" and "el_text name = Some form_name"
    and "el_text study_id = Some key"
  shows "form_body redcap_client doc skip_blanks bulk_send_blanks person study_id form s =
           events_loop redcap_client doc skip_blanks bulk_send_blanks key form_name
             (''Total_'' @ form_name @ ''_Forms'') (child_elems form ''event'')
             (init_counters person key (''Total_'' @ form_name @ ''_Forms'')
                (s\<lparr>study_id_key_var := Some key\<rparr>))"
  using assms by (simp add: form_body_def Let_def)

subsection \<open>The decision taken for one event\<close>

lemmas run_defs =
  generate_output_def person_body_def form_body_def
  event_body_def send_event_def count_if_data_def update_event_counters_def
  init_counters_def send_blanks_def upload_data_def mark_sent_def was_sent_def
  create_import_data_json_def create_redcap_records_def itervalues_def initial_state_def
  world_of_def
  xpath_all_def xpath_event_field_name_def xpath_all_form_events_form_def child_elems_def
  find_child_def findtext_def findtext_or_def get_attrib_def
  person_elem_def form_elem_def event_elem_def field_elem_def empty_world_def
  ok_client_def failing_client_def handle_errors_in_redcap_xml_response_def Let_def
  ready_state_def subject_count_def




text \<open>
  Claim C4. With \<open>skip_blanks\<close> on, when the loop over the events of a form reaches an
  event that is blank and was not sent before, it ends there: whatever events follow, the
  state is the one in which the blank event was reached, so none of them is sent or
  counted, and the loop over the forms goes on with the next form.
\<close>

theorem skip_blanks_abandons_form:
  assumes "findtext_or event ''name'' [] = event_name" and "event_name \<noteq> []"
    and "create_import_data_json doc [Some (def_field redcap_client) \<mapsto> key] event =
           Inr (json_data_dict, False)"
    and "\<not> was_sent s key form_name event_name"
  shows "events_loop redcap_client doc True bulk_send_blanks key form_name fk (event # rest) s =
           (None, s)"
  using assms by (simp add: event_body_def)

theorem skip_blanks_abandons_form_witness:
  "events_loop ok_client skip_doc True False ''S1'' ''cbc'' ''Total_cbc_Forms''
     [event_elem ''E1'' [field_elem ''hgb'' None],
      event_elem ''E2'' [field_elem ''hgb'' (Some ''8'')],
      event_elem ''E3'' [field_elem ''hgb'' None]] ready_state = (None, ready_state) \<and>
   snd (generate_output (\<lambda>key. 0) skip_doc ok_client True False empty_world) =
     \<lparr>sent_events = {(''S1'', ''chem'', ''E1'')},
      requests = [([[Some ''id'' \<mapsto> ''S1'', Some ''redcap_event_name'' \<mapsto> ''E1'',
                     Some ''na'' \<mapsto> ''140'']], True)]\<rparr> \<and>
   map_sum id (\<lambda>r. (report_form_details r ''Total_cbc_Forms'',
                     report_form_details r ''Total_chem_Forms''))
     (fst (generate_output (\<lambda>key. 0) skip_doc ok_client True False empty_world)) = Inr (Some 0, Some 1)"
proof -
  let ?ev = "event_elem ''E1'' [field_elem ''hgb'' None]"
  have 1: "findtext_or ?ev ''name'' [] = ''E1''"
    by (simp add: run_defs)
  have 2: "''E1'' \<noteq> []" by simp
  have 3: "create_import_data_json skip_doc [Some (def_field ok_client) \<mapsto> ''S1''] ?ev =
             Inr ([Some ''id'' \<mapsto> ''S1'', Some ''redcap_event_name'' \<mapsto> ''E1'',
                   Some ''hgb'' \<mapsto> []], False)"
    by (simp add: run_defs skip_doc_def)
  have 4: "\<not> was_sent ready_state ''S1'' ''cbc'' ''E1''"
    by (simp add: run_defs)
  have run: "snd (generate_output (\<lambda>key. 0) skip_doc ok_client True False empty_world) =
     \<lparr>sent_events = {(''S1'', ''chem'', ''E1'')},
      requests = [([[Some ''id'' \<mapsto> ''S1'', Some ''redcap_event_name'' \<mapsto> ''E1'',
                     Some ''na'' \<mapsto> ''140'']], True)]\<rparr>"
    by (simp add: run_defs skip_doc_def)
  have rep: "map_sum id (\<lambda>r. (report_form_details r ''Total_cbc_Forms'',
                     report_form_details r ''Total_chem_Forms''))
     (fst (generate_output (\<lambda>key. 0) skip_doc ok_client True False empty_world)) = Inr (Some 0, Some 1)"
    by (simp add: run_defs skip_doc_def)
  from skip_blanks_abandons_form [OF 1 2 3 4] run rep show ?thesis by simp
qed





subsection \<open>The bulk upload of the deferred blank events\<close>

lemma mark_all_sent_sent_events:
  "sent_events (mark_all_sent bs w) = sent_events w \<union> sent_key ` set bs"
  by (induction bs w rule: mark_all_sent.induct) (auto simp: mark_sent_def sent_key_def)

lemma mark_all_sent_requests: "requests (mark_all_sent bs w) = requests w"
  by (induction bs w rule: mark_all_sent.induct) (auto simp: mark_sent_def)

lemma mark_all_sent_report: "report (mark_all_sent bs s) = report s"
  by (induction bs s rule: mark_all_sent.induct) (auto simp: mark_sent_def)

lemma deferred_when_blank:
  assumes "findtext_or event ''name'' [] = event_name" and "event_name \<noteq> []"
    and "create_import_data_json doc [Some (def_field redcap_client) \<mapsto> key] event =
           Inr (json_data_dict, False)"
    and "\<not> was_sent s key form_name event_name"
  shows "event_body redcap_client doc False True key form_name fk event s =
           (Continue, s\<lparr>blanks := blanks s @ [(key, form_name, event_name, json_data_dict)]\<rparr>)"
  using assms by (simp add: event_body_def)

text \<open>
  Claim C5. When blank events were deferred, the end of the run makes one call with the
  records that \<open>create_redcap_records\<close> builds from them and \<open>overwrite=True\<close>. When
  the call returns, every deferred triple is marked as sent; when it raises a
  \<open>RedcapError\<close>, no triple is marked and the message goes to
  \<open>handle_errors_in_redcap_xml_response\<close>. Two deferred items of the subject \<open>S1\<close> and
  the event \<open>E1\<close> give one record.
\<close>

theorem bulk_send_of_blanks:
  assumes "blanks s \<noteq> []"
  shows "requests (snd (send_blanks slot_of redcap_client s)) =
           requests s @ [(create_redcap_records slot_of (blanks s), True)] \<and>
         (\<forall>response.
            send_data_to_redcap redcap_client (requests s) (create_redcap_records slot_of (blanks s)) True =
              Returns response \<longrightarrow>
            sent_events (snd (send_blanks slot_of redcap_client s)) =
              sent_events s \<union> sent_key ` set (blanks s) \<and>
            report (snd (send_blanks slot_of redcap_client s)) = report s) \<and>
         (\<forall>message.
            send_data_to_redcap redcap_client (requests s) (create_redcap_records slot_of (blanks s)) True =
              Raises (RedcapError message) \<longrightarrow>
            sent_events (snd (send_blanks slot_of redcap_client s)) = sent_events s \<and>
            report (snd (send_blanks slot_of redcap_client s)) =
              fst (snd (handle_errors_in_redcap_xml_response message (report s)))) \<and>
         length (create_redcap_records slot_of [(''S1'', f, ''E1'', A), (''S1'', g, ''E1'', B)]) = 1"
proof (intro conjI allI impI)
  let ?recs = "create_redcap_records slot_of (blanks s)"
  let ?s1 = "s\<lparr>requests := requests s @ [(?recs, True)]\<rparr>"
  show "requests (snd (send_blanks slot_of redcap_client s)) = requests s @ [(?recs, True)]"
    using assms
    by (auto simp: send_blanks_def upload_data_def mark_all_sent_requests
        split: send_result.splits error.splits prod.splits sum.splits)
  show "length (create_redcap_records slot_of [(''S1'', f, ''E1'', A), (''S1'', g, ''E1'', B)]) = 1"
    by (simp add: create_redcap_records_def length_itervalues)
  {
    fix response
    assume r: "send_data_to_redcap redcap_client (requests s) ?recs True = Returns response"
    have "snd (send_blanks slot_of redcap_client s) = mark_all_sent (blanks s) ?s1"
      using assms r by (simp add: send_blanks_def upload_data_def split: sum.splits)
    then show "sent_events (snd (send_blanks slot_of redcap_client s)) =
        sent_events s \<union> sent_key ` set (blanks s)"
      and "report (snd (send_blanks slot_of redcap_client s)) = report s"
      by (simp_all add: mark_all_sent_sent_events mark_all_sent_report)
  }
  {
    fix message
    assume r: "send_data_to_redcap redcap_client (requests s) ?recs True =
                 Raises (RedcapError message)"
    obtain out rd lg where
      h: "handle_errors_in_redcap_xml_response message (report s) = (out, rd, lg)"
      by (cases "handle_errors_in_redcap_xml_response message (report s)") auto
    have "snd (send_blanks slot_of redcap_client s) = ?s1\<lparr>report := rd\<rparr>"
      using assms r h by (cases out) (simp_all add: send_blanks_def upload_data_def)
    then show "sent_events (snd (send_blanks slot_of redcap_client s)) = sent_events s"
      and "report (snd (send_blanks slot_of redcap_client s)) =
        fst (snd (handle_errors_in_redcap_xml_response message (report s)))"
      using h by simp_all
  }
qed

theorem bulk_send_of_blanks_witness:
  "snd (generate_output (\<lambda>key. 0) bulk_doc ok_client False True empty_world) =
     \<lparr>sent_events = {(''S1'', ''cbc'', ''E1''), (''S1'', ''chem'', ''E1'')},
      requests = [([[Some ''hgb'' \<mapsto> [], Some ''id'' \<mapsto> ''S1'',
                     Some ''redcap_event_name'' \<mapsto> ''E1'', Some ''na'' \<mapsto> []]], True)]\<rparr> \<and>
   sent_events (snd (send_blanks (\<lambda>key. 0) ok_client
      ((initial_state empty_world)
         \<lparr>blanks := [(''S1'', ''cbc'', ''E1'', [Some ''hgb'' \<mapsto> []]),
                     (''S1'', ''chem'', ''E1'', [Some ''na'' \<mapsto> []])]\<rparr>))) =
     {(''S1'', ''cbc'', ''E1''), (''S1'', ''chem'', ''E1'')} \<and>
   sent_events (snd (send_blanks (\<lambda>key. 0) (failing_client NotLiteral)
      ((initial_state empty_world)
         \<lparr>blanks := [(''S1'', ''cbc'', ''E1'', [Some ''hgb'' \<mapsto> []]),
                     (''S1'', ''chem'', ''E1'', [Some ''na'' \<mapsto> []])]\<rparr>))) = {}"
proof -
  let ?s = "(initial_state empty_world)
         \<lparr>blanks := [(''S1'', ''cbc'', ''E1'', [Some ''hgb'' \<mapsto> []]),
                     (''S1'', ''chem'', ''E1'', [Some ''na'' \<mapsto> []])]\<rparr>"
  have b: "blanks ?s \<noteq> []" by simp
  have run: "snd (generate_output (\<lambda>key. 0) bulk_doc ok_client False True empty_world) =
     \<lparr>sent_events = {(''S1'', ''cbc'', ''E1''), (''S1'', ''chem'', ''E1'')},
      requests = [([[Some ''hgb'' \<mapsto> [], Some ''id'' \<mapsto> ''S1'',
                     Some ''redcap_event_name'' \<mapsto> ''E1'', Some ''na'' \<mapsto> []]], True)]\<rparr>"
    by (simp add: run_defs bulk_doc_def insert_commute)
  have r: "send_data_to_redcap ok_client (requests ?s) (create_redcap_records (\<lambda>key. 0) (blanks ?s)) True =
             Returns (PDict [(PStr ''count'', PInt 1)])"
    by (simp add: ok_client_def create_redcap_records_def itervalues_def)
  have r': "send_data_to_redcap (failing_client NotLiteral) (requests ?s)
              (create_redcap_records (\<lambda>key. 0) (blanks ?s)) True = Raises (RedcapError NotLiteral)"
    by (simp add: failing_client_def)
  have e: "sent_events ?s = {}"
    by (simp add: initial_state_def empty_world_def)
  from bulk_send_of_blanks [OF b, of "\<lambda>key. 0" ok_client] r
    bulk_send_of_blanks [OF b, of "\<lambda>key. 0" "failing_client NotLiteral"] r' e run
  show ?thesis by (auto simp: sent_key_def)
qed

end
